theory Spec2Isabelle
  imports Complex_Main "HOL-Library.AList"
begin

section \<open>Values of the request documents\<close>

text \<open>
  The loader of \<^verbatim>\<open>src/public/vega_view/vega_loader.js\<close> rewrites JSON-like request
  documents in place. A document is a tree of JavaScript values. Objects are association
  lists in insertion order (the order of \<^verbatim>\<open>Object.keys\<close> for keys that are no array
  indices), with pairwise distinct keys; arrays are lists. Numbers are the rationals: the
  documents carry epoch milliseconds and bucket counts, and the arithmetic of the loader
  (one sum, one product, one quotient) is taken exactly, so the rounding of doubles,
  \<^verbatim>\<open>NaN\<close> and the infinities are outside the model.
\<close>

datatype jsval =
    Undefined
  | Null
  | JBool bool
  | JNum rat
  | JStr string
  | JArr "jsval list"
  | JObj "(string \<times> jsval) list"

type_synonym object = "(string \<times> jsval) list"

datatype js_type = TUndefined | TObject | TBoolean | TNumber | TString

text \<open>The operator \<^verbatim>\<open>typeof\<close>: \<^verbatim>\<open>null\<close> and arrays are of type \<^verbatim>\<open>'object'\<close>.\<close>

fun typeof :: "jsval \<Rightarrow> js_type" where
  "typeof Undefined = TUndefined"
| "typeof Null = TObject"
| "typeof (JBool b) = TBoolean"
| "typeof (JNum n) = TNumber"
| "typeof (JStr s) = TString"
| "typeof (JArr xs) = TObject"
| "typeof (JObj kvs) = TObject"

text \<open>The conversion to a boolean that \<^verbatim>\<open>if (v)\<close>, \<^verbatim>\<open>!v\<close>, \<^verbatim>\<open>&&\<close> and \<^verbatim>\<open>||\<close> apply.\<close>

fun truthy :: "jsval \<Rightarrow> bool" where
  "truthy Undefined = False"
| "truthy Null = False"
| "truthy (JBool b) = b"
| "truthy (JNum n) = (n \<noteq> 0)"
| "truthy (JStr s) = (s \<noteq> [])"
| "truthy (JArr xs) = True"
| "truthy (JObj kvs) = True"

fun isArray :: "jsval \<Rightarrow> bool" where
  "isArray (JArr xs) = True"
| "isArray v = False"

text \<open>
  Reading, writing and deleting a property of an object. A missing key reads as
  \<^verbatim>\<open>undefined\<close>; a write keeps the position of an existing key and appends a new one.
\<close>

definition obj_get :: "object \<Rightarrow> string \<Rightarrow> jsval" where
  "obj_get obj k = (case map_of obj k of Some v \<Rightarrow> v | None \<Rightarrow> Undefined)"

definition obj_set :: "object \<Rightarrow> string \<Rightarrow> jsval \<Rightarrow> object" where
  "obj_set obj k v = AList.update k v obj"

definition obj_delete :: "object \<Rightarrow> string \<Rightarrow> object" where
  "obj_delete obj k = AList.delete k obj"

text \<open>
  \<^verbatim>\<open>v[k]\<close> on a receiver that is neither \<^verbatim>\<open>undefined\<close> nor \<^verbatim>\<open>null\<close>, for the keys the
  loader reads (none of them is an index, \<^verbatim>\<open>length\<close> or a method name): arrays and
  primitives have no such property. The loader reads a property of a possibly null
  receiver in two places only, modelled by \<open>member\<close>.
\<close>

fun get_prop :: "jsval \<Rightarrow> string \<Rightarrow> jsval" where
  "get_prop (JObj obj) k = obj_get obj k"
| "get_prop v k = Undefined"

datatype error =
    ConflictingQuery
  | InvalidContextQueryField
  | InvalidShift
  | UnknownUnit
  | InvalidAutoInterval
  | InvalidTimefilterValue
  | UnexpectedUrlObject
  | ExternalUrlsDisabled
  | TypeError
  | Unmodelled

text \<open>
  The first eight are the \<^verbatim>\<open>throw new Error(...)\<close> statements of the loader, under the names
  of the specification. \<open>TypeError\<close> is the exception of the JavaScript runtime for a
  property read on \<^verbatim>\<open>undefined\<close> or \<^verbatim>\<open>null\<close>, a call of a value that is no function and,
  in module (strict) code, a property write on a primitive. \<open>Unmodelled\<close> is no exception
  of the program: it marks the one action that the tree of values cannot hold, a named
  property stored on an array.
\<close>

fun member :: "jsval \<Rightarrow> string \<Rightarrow> error + jsval" where
  "member Undefined k = Inl TypeError"
| "member Null k = Inl TypeError"
| "member v k = Inr (get_prop v k)"

fun set_prop :: "jsval \<Rightarrow> string \<Rightarrow> jsval \<Rightarrow> error + jsval" where
  "set_prop (JObj obj) k v = Inr (JObj (obj_set obj k v))"
| "set_prop (JArr xs) k v = Inl Unmodelled"
| "set_prop w k v = Inl TypeError"

text \<open>
  A sub-value that was mutated in place is stored back under its key; a key that was
  read as \<^verbatim>\<open>undefined\<close> because it is missing is not created.
\<close>

definition store_back :: "jsval \<Rightarrow> string \<Rightarrow> jsval \<Rightarrow> jsval" where
  "store_back w k v =
     (case w of
        JObj obj \<Rightarrow> if k \<in> fst ` set obj then JObj (obj_set obj k v) else w
      | _ \<Rightarrow> w)"

section \<open>The loader's constants and collaborators\<close>

definition SIMPLE_QUERY :: string where "SIMPLE_QUERY = ''%context_query%''"
definition TIMEFILTER :: string where "TIMEFILTER = ''%timefilter%''"
definition AUTOINTERVAL :: string where "AUTOINTERVAL = ''%autointerval%''"
definition MUST_CLAUSE :: string where "MUST_CLAUSE = ''%dashboard_context-must_clause%''"
definition MUST_NOT_CLAUSE :: string where
  "MUST_NOT_CLAUSE = ''%dashboard_context-must_not_clause%''"

record bounds =
  min_bound :: rat
  max_bound :: rat

text \<open>
  The arguments of \<^verbatim>\<open>createVegaLoader\<close>, as far as the loader looks at them:
  \<open>getBounds\<close> is what \<^verbatim>\<open>timefilter.getBounds()\<close> answers at the time of the call, with
  \<^verbatim>\<open>valueOf()\<close> applied to both ends; \<open>dashboardContext\<close> is what \<^verbatim>\<open>dashboardContext()\<close>
  answers. Both may differ from one call of the loader to the next, so every operation
  takes them as an argument. The search client \<^verbatim>\<open>es\<close> only receives the finished request.
\<close>

record collaborators =
  getBounds :: bounds
  dashboardContext :: jsval
  enableExternalUrls :: bool

text \<open>The closure variable \<^verbatim>\<open>_timeBounds\<close>: unset, or the bounds stored by \<^verbatim>\<open>getTimeRange\<close>.\<close>

type_synonym cache = "bounds option"

section \<open>Interval rounding\<close>

definition roundInterval :: "rat \<Rightarrow> string" where
  "roundInterval interval =
     (if interval \<le> 500 then ''100ms''
      else if interval \<le> 5000 then ''1s''
      else if interval \<le> 7500 then ''5s''
      else if interval \<le> 15000 then ''10s''
      else if interval \<le> 45000 then ''30s''
      else if interval \<le> 180000 then ''1m''
      else if interval \<le> 450000 then ''5m''
      else if interval \<le> 1200000 then ''10m''
      else if interval \<le> 2700000 then ''30m''
      else if interval \<le> 7200000 then ''1h''
      else if interval \<le> 21600000 then ''3h''
      else if interval \<le> 86400000 then ''12h''
      else if interval \<le> 604800000 then ''24h''
      else if interval \<le> 1814400000 then ''1w''
      else if interval < 3628800000 then ''30d''
      else ''1y'')"

section \<open>Time bounds\<close>

text \<open>
  \<^verbatim>\<open>getTimeRange\<close> answers the stored bounds when \<^verbatim>\<open>_timeBounds\<close> is set (an object is
  always truthy) and otherwise asks the time filter and stores the answer. It returns the
  new value of \<^verbatim>\<open>_timeBounds\<close> with the bounds.
\<close>

definition getTimeRange :: "collaborators \<Rightarrow> cache \<Rightarrow> cache \<times> bounds" where
  "getTimeRange env c =
     (case c of
        Some b \<Rightarrow> (c, b)
      | None \<Rightarrow> (Some (getBounds env), getBounds env))"

text \<open>The second argument of \<^verbatim>\<open>getTimeBound\<close>: every call passes \<^verbatim>\<open>'min'\<close> or \<^verbatim>\<open>'max'\<close>.\<close>

datatype bound_type = Min | Max

fun bound_of :: "bounds \<Rightarrow> bound_type \<Rightarrow> rat" where
  "bound_of b Min = min_bound b"
| "bound_of b Max = max_bound b"

text \<open>The \<^verbatim>\<open>switch (opts.unit || 'd')\<close> of \<^verbatim>\<open>getTimeBound\<close>; \<open>None\<close> is its \<^verbatim>\<open>default\<close> branch.\<close>

definition unit_multiplier :: "jsval \<Rightarrow> rat option" where
  "unit_multiplier u =
     (if u = JStr ''w'' \<or> u = JStr ''week'' then Some (1000 * 60 * 60 * 24 * 7)
      else if u = JStr ''d'' \<or> u = JStr ''day'' then Some (1000 * 60 * 60 * 24)
      else if u = JStr ''h'' \<or> u = JStr ''hour'' then Some (1000 * 60 * 60)
      else if u = JStr ''m'' \<or> u = JStr ''minute'' then Some (1000 * 60)
      else if u = JStr ''s'' \<or> u = JStr ''second'' then Some 1000
      else None)"

definition getTimeBound ::
  "collaborators \<Rightarrow> cache \<Rightarrow> object \<Rightarrow> bound_type \<Rightarrow> error + (cache \<times> rat)" where
  "getTimeBound env c opts type =
     (case getTimeRange env c of
        (c', bnds) \<Rightarrow>
          if truthy (obj_get opts ''shift'') then
            (case obj_get opts ''shift'' of
               JNum shift \<Rightarrow>
                 (case unit_multiplier
                         (if truthy (obj_get opts ''unit'') then obj_get opts ''unit''
                          else JStr ''d'') of
                    Some multiplier \<Rightarrow> Inr (c', bound_of bnds type + shift * multiplier)
                  | None \<Rightarrow> Inl UnknownUnit)
             | _ \<Rightarrow> Inl InvalidShift)
          else Inr (c', bound_of bnds type))"

section \<open>Range filters\<close>

definition createRangeFilter ::
  "collaborators \<Rightarrow> cache \<Rightarrow> object \<Rightarrow> error + (cache \<times> object)" where
  "createRangeFilter env c obj =
     (case getTimeBound env c obj Min of
        Inl e \<Rightarrow> Inl e
      | Inr (c1, gte) \<Rightarrow>
          (case getTimeBound env c1 (obj_set obj ''gte'' (JNum gte)) Max of
             Inl e \<Rightarrow> Inl e
           | Inr (c2, lte) \<Rightarrow>
               Inr (c2,
                 obj_delete
                   (obj_delete
                      (obj_delete
                         (obj_set
                            (obj_set (obj_set obj ''gte'' (JNum gte)) ''lte'' (JNum lte))
                            ''format'' (JStr ''epoch_millis''))
                         TIMEFILTER)
                      ''shift'')
                   ''unit'')))"

section \<open>The walker over a request document\<close>

text \<open>\<^verbatim>\<open>xs.splice(start, n, ...items)\<close> for \<open>start \<le> length xs\<close>.\<close>

definition splice :: "nat \<Rightarrow> nat \<Rightarrow> 'a list \<Rightarrow> 'a list \<Rightarrow> 'a list" where
  "splice start n items xs = take start xs @ items @ drop (start + n) xs"

text \<open>The elements of an array, for a value that \<^verbatim>\<open>Array.isArray\<close> accepts.\<close>

fun the_items :: "jsval \<Rightarrow> jsval list" where
  "the_items (JArr xs) = xs"
| "the_items v = []"

text \<open>
  One turn of the array loop of \<^verbatim>\<open>injectQueryContextVars\<close> on a clause marker \<open>item\<close> at
  the cursor \<open>pos\<close> of the array \<open>obj\<close>: the new cursor and the new array.
\<close>

definition replace_clause ::
  "collaborators \<Rightarrow> jsval \<Rightarrow> nat \<Rightarrow> jsval list \<Rightarrow> nat \<times> jsval list" where
  "replace_clause env item pos obj =
     (let ctxTag = (if item = JStr MUST_CLAUSE then ''must'' else ''must_not'');
          ctx = dashboardContext env
      in if truthy ctx \<and> truthy (get_prop ctx ''bool'')
            \<and> truthy (get_prop (get_prop ctx ''bool'') ctxTag) then
           (if isArray (get_prop (get_prop ctx ''bool'') ctxTag) then
              (pos + length (the_items (get_prop (get_prop ctx ''bool'') ctxTag)),
               splice pos 1 (the_items (get_prop (get_prop ctx ''bool'') ctxTag)) obj)
            else (Suc pos, obj[pos := get_prop (get_prop ctx ''bool'') ctxTag]))
         else (pos, splice pos 1 [] obj))"

text \<open>
  The bucket count of \<^verbatim>\<open>"interval": {"%autointerval%": size}\<close>: \<^verbatim>\<open>true\<close> stands for 50,
  a number for itself, anything else is refused.
\<close>

definition autointerval_size :: "jsval \<Rightarrow> error + rat" where
  "autointerval_size size0 =
     (if size0 = JBool True then Inr 50
      else (case size0 of JNum n \<Rightarrow> Inr n | _ \<Rightarrow> Inl InvalidAutoInterval))"

text \<open>
  A value with a defined \<^verbatim>\<open>%timefilter%\<close> property is an object (\<open>get_prop\<close> is
  \<^verbatim>\<open>undefined\<close> on everything else); \<open>the_object\<close> takes its entries.
\<close>

fun the_object :: "jsval \<Rightarrow> object" where
  "the_object (JObj obj) = obj"
| "the_object v = []"

lemma replace_clause_drop:
  "pos < length obj \<Longrightarrow> replace_clause env item pos obj = (pos', obj') \<Longrightarrow>
     drop pos' obj' = drop (Suc pos) obj"
  by (auto simp: replace_clause_def splice_def Let_def split: if_splits)

lemma size_list_drop_nth:
  "i < length xs \<Longrightarrow> size_list f (drop i xs) = f (xs ! i) + size_list f (drop (Suc i) xs) + 1"
  by (simp add: Cons_nth_drop_Suc [symmetric])

lemma size_prod_nth:
  "(x, y) = obj ! i \<Longrightarrow> size_prod (\<lambda>_. 0) size (obj ! i) = Suc (size (y::jsval))"
  by (drule sym) simp

text \<open>
  \<^verbatim>\<open>injectQueryContextVars(obj, isQuery)\<close> mutates \<open>obj\<close> in place; the model returns the
  new value of \<open>obj\<close> with the new value of \<^verbatim>\<open>_timeBounds\<close>, or the error thrown (an
  error ends the whole call of the loader, and what the failed call leaves behind is not
  part of the result). The two
  loops keep the cursor of the source: \<open>inject_array\<close> is the \<^verbatim>\<open>for (let pos = 0; ...)\<close>
  loop from the cursor \<open>pos\<close> on, \<open>inject_props\<close> is the loop over \<^verbatim>\<open>Object.keys(obj)\<close>
  from its \<open>i\<close>-th key on. The loop over the keys changes the value of the current key only,
  so the \<open>i\<close>-th entry of the object is \<^verbatim>\<open>obj[prop]\<close> for the \<open>i\<close>-th key \<open>prop\<close>, and
  \<^verbatim>\<open>obj.interval = ...\<close> under \<^verbatim>\<open>prop === 'interval'\<close> writes that entry.
  The guard \<^verbatim>\<open>obj && typeof obj === 'object'\<close> with \<^verbatim>\<open>Array.isArray\<close> is the choice
  between the first three equations.
\<close>

function (sequential)
  injectQueryContextVars ::
    "collaborators \<Rightarrow> cache \<Rightarrow> jsval \<Rightarrow> bool \<Rightarrow> error + (cache \<times> jsval)"
and inject_array ::
    "collaborators \<Rightarrow> cache \<Rightarrow> bool \<Rightarrow> nat \<Rightarrow> jsval list \<Rightarrow> error + (cache \<times> jsval list)"
and inject_props ::
    "collaborators \<Rightarrow> cache \<Rightarrow> bool \<Rightarrow> nat \<Rightarrow> object \<Rightarrow> error + (cache \<times> object)"
where
  "injectQueryContextVars env c (JArr obj) isQuery =
     (case inject_array env c isQuery 0 obj of
        Inl e \<Rightarrow> Inl e
      | Inr (c', obj') \<Rightarrow> Inr (c', JArr obj'))"
| "injectQueryContextVars env c (JObj obj) isQuery =
     (case inject_props env c isQuery 0 obj of
        Inl e \<Rightarrow> Inl e
      | Inr (c', obj') \<Rightarrow> Inr (c', JObj obj'))"
| "injectQueryContextVars env c obj isQuery = Inr (c, obj)"
| "inject_array env c isQuery pos obj =
     (if pos < length obj then
        (if isQuery \<and> (obj ! pos = JStr MUST_CLAUSE \<or> obj ! pos = JStr MUST_NOT_CLAUSE) then
           (case replace_clause env (obj ! pos) pos obj of
              (pos', obj') \<Rightarrow> inject_array env c isQuery pos' obj')
         else
           (case injectQueryContextVars env c (obj ! pos) isQuery of
              Inl e \<Rightarrow> Inl e
            | Inr (c', item') \<Rightarrow> inject_array env c' isQuery (Suc pos) (obj[pos := item'])))
      else Inr (c, obj))"
| "inject_props env c isQuery i obj =
     (if i < length obj then
        (case obj ! i of
           (prop, subObj) \<Rightarrow>
             if \<not> truthy subObj \<or> typeof (JObj obj) \<noteq> TObject then
               inject_props env c isQuery (Suc i) obj
             else if prop = ''interval'' \<and> truthy (get_prop subObj AUTOINTERVAL) then
               (case autointerval_size (get_prop subObj AUTOINTERVAL) of
                  Inl e \<Rightarrow> Inl e
                | Inr size0 \<Rightarrow>
                    (case getTimeRange env c of
                       (c', bnds) \<Rightarrow>
                         inject_props env c' isQuery (Suc i)
                           (obj[i := (prop, JStr (roundInterval
                              ((max_bound bnds - min_bound bnds) / size0)))])))
             else if get_prop subObj TIMEFILTER = JStr ''min''
                   \<or> get_prop subObj TIMEFILTER = JStr ''max'' then
               (case getTimeBound env c (the_object subObj)
                       (if get_prop subObj TIMEFILTER = JStr ''min'' then Min else Max) of
                  Inl e \<Rightarrow> Inl e
                | Inr (c', t) \<Rightarrow>
                    inject_props env c' isQuery (Suc i) (obj[i := (prop, JNum t)]))
             else if get_prop subObj TIMEFILTER = JBool True then
               (case createRangeFilter env c (the_object subObj) of
                  Inl e \<Rightarrow> Inl e
                | Inr (c', so') \<Rightarrow>
                    inject_props env c' isQuery (Suc i) (obj[i := (prop, JObj so')]))
             else if get_prop subObj TIMEFILTER = Undefined then
               (case injectQueryContextVars env c subObj isQuery of
                  Inl e \<Rightarrow> Inl e
                | Inr (c', subObj') \<Rightarrow>
                    inject_props env c' isQuery (Suc i) (obj[i := (prop, subObj')]))
             else Inl InvalidTimefilterValue)
      else Inr (c, obj))"
  by pat_completeness auto

text \<open>
  Every turn of either loop leaves one element less behind the cursor, whatever a splice
  inserts before it, and a recursive call goes into an element at the cursor.
\<close>

termination
proof (relation "measure (\<lambda>x. case x of
          Inl (env, c, v, q) \<Rightarrow> 2 * size v
        | Inr (Inl (env, c, q, pos, xs)) \<Rightarrow> 2 * size_list size (drop pos xs) + 1
        | Inr (Inr (env, c, q, i, kvs)) \<Rightarrow>
            2 * size_list (size_prod (\<lambda>_. 0) size) (drop i kvs) + 1)", goal_cases)
  case (4 env c isQuery pos obj pos' obj')
  from replace_clause_drop [OF 4(1) 4(3) [symmetric]]
  show ?case using 4(1) by (simp add: size_list_drop_nth)
qed (auto simp add: size_list_drop_nth size_prod_nth)

declare inject_array.simps [simp del] inject_props.simps [simp del]

section \<open>The request builder\<close>

fun the_string :: "jsval \<Rightarrow> string" where
  "the_string (JStr s) = s"
| "the_string v = []"

text \<open>
  \<^verbatim>\<open>body.query.bool.must.push({range: {[field]: createRangeFilter({[TIMEFILTER]: true})}})\<close>
  of \<^verbatim>\<open>queryEsData\<close>, on the value \<open>query\<close> of \<^verbatim>\<open>body.query\<close>: the new value of
  \<^verbatim>\<open>body.query\<close>. Neither property read is guarded, and \<^verbatim>\<open>push\<close> is a function on
  arrays only.
\<close>

definition push_range ::
  "collaborators \<Rightarrow> cache \<Rightarrow> jsval \<Rightarrow> string \<Rightarrow> error + (cache \<times> jsval)" where
  "push_range env c query field =
     (case member query ''bool'' of
        Inl e \<Rightarrow> Inl e
      | Inr bool \<Rightarrow>
          (case member bool ''must'' of
             Inl e \<Rightarrow> Inl e
           | Inr must \<Rightarrow>
               (case createRangeFilter env c [(TIMEFILTER, JBool True)] of
                  Inl e \<Rightarrow> Inl e
                | Inr (c', range_filter) \<Rightarrow>
                    (case must of
                       JArr xs \<Rightarrow>
                         Inr (c',
                           store_back query ''bool''
                             (store_back bool ''must''
                                (JArr (xs @ [JObj [(''range'', JObj [(field, JObj range_filter)])]]))))
                     | _ \<Rightarrow> Inl TypeError))))"

text \<open>
  The branch \<^verbatim>\<open>if (uri[SIMPLE_QUERY]) { ... }\<close> of \<^verbatim>\<open>queryEsData\<close>, on the request
  \<open>uri\<close> and the value \<open>body\<close> of \<^verbatim>\<open>uri.body\<close>: the new values of \<^verbatim>\<open>_timeBounds\<close>,
  \<open>uri\<close> (but for its \<^verbatim>\<open>body\<close>) and \<open>body\<close>.
\<close>

definition simple_query ::
  "collaborators \<Rightarrow> cache \<Rightarrow> object \<Rightarrow> jsval \<Rightarrow> error + (cache \<times> object \<times> jsval)" where
  "simple_query env c uri body =
     (if truthy (get_prop body ''query'') then Inl ConflictingQuery
      else
        (let field = obj_get uri SIMPLE_QUERY in
         if field \<noteq> JBool True
            \<and> (typeof field \<noteq> TString \<or> length (the_string field) = 0) then
           Inl InvalidContextQueryField
         else
           (case set_prop body ''query'' (dashboardContext env) of
              Inl e \<Rightarrow> Inl e
            | Inr body' \<Rightarrow>
                if field \<noteq> JBool True then
                  (case push_range env c (get_prop body' ''query'') (the_string field) of
                     Inl e \<Rightarrow> Inl e
                   | Inr (c', query') \<Rightarrow>
                       Inr (c', obj_delete uri SIMPLE_QUERY,
                            store_back body' ''query'' query'))
                else Inr (c, obj_delete uri SIMPLE_QUERY, body'))))"

text \<open>
  \<^verbatim>\<open>queryEsData(uri)\<close> returns \<^verbatim>\<open>es.search(uri)\<close>: the model returns the request that the
  search client receives, with the new value of \<^verbatim>\<open>_timeBounds\<close>, or the error thrown
  before the search.
\<close>

definition queryEsData ::
  "collaborators \<Rightarrow> cache \<Rightarrow> object \<Rightarrow> error + (cache \<times> object)" where
  "queryEsData env c uri0 =
     (let body = (if truthy (obj_get uri0 ''body'') then obj_get uri0 ''body'' else JObj []);
          uri = obj_set uri0 ''body'' body
      in case (if truthy (obj_get uri SIMPLE_QUERY) then simple_query env c uri body
               else (case injectQueryContextVars env c (get_prop body ''query'') True of
                       Inl e \<Rightarrow> Inl e
                     | Inr (c', query') \<Rightarrow> Inr (c', uri, store_back body ''query'' query')))
         of
           Inl e \<Rightarrow> Inl e
         | Inr (c1, uri1, body1) \<Rightarrow>
             (case injectQueryContextVars env c1 (get_prop body1 ''aggs'') False of
                Inl e \<Rightarrow> Inl e
              | Inr (c2, aggs') \<Rightarrow>
                  Inr (c2, obj_set uri1 ''body'' (store_back body1 ''aggs'' aggs'))))"

section \<open>The loader\<close>



section \<open>Notions of the specification and of the proofs\<close>

text \<open>
  The table of upper bounds of the interval rounder as the specification lists it, and
  the lookup it describes: the name of the first bound that the duration does not
  exceed; past the table, \<open>30d\<close> strictly below 3628800000 and \<open>1y\<close> from there on.
\<close>

definition interval_table :: "(rat \<times> string) list" where
  "interval_table =
     [(500, ''100ms''), (5000, ''1s''), (7500, ''5s''), (15000, ''10s''), (45000, ''30s''),
      (180000, ''1m''), (450000, ''5m''), (1200000, ''10m''), (2700000, ''30m''),
      (7200000, ''1h''), (21600000, ''3h''), (86400000, ''12h''), (604800000, ''24h''),
      (1814400000, ''1w'')]"

definition table_bucket :: "rat \<Rightarrow> string" where
  "table_bucket ms =
     (case find (\<lambda>(upper, name). ms \<le> upper) interval_table of
        Some (upper, name) \<Rightarrow> name
      | None \<Rightarrow> if ms < 3628800000 then ''30d'' else ''1y'')"

text \<open>
  The bounds that \<^verbatim>\<open>getTimeRange\<close> answers under the stored value \<open>c\<close> of
  \<^verbatim>\<open>_timeBounds\<close>: the stored bounds, or those of the time filter when nothing is stored.
\<close>

definition bounds_in_use :: "collaborators \<Rightarrow> cache \<Rightarrow> bounds" where
  "bounds_in_use env c = snd (getTimeRange env c)"

text \<open>
  The unit table of the specification (week, day, hour, minute, second, by full name or
  single letter), each unit a multiple of the next, and the unit of a shift: the \<^verbatim>\<open>unit\<close>
  option when it is truthy, the day otherwise.
\<close>

definition unit_table :: "(string \<times> rat) list" where
  "unit_table =
     [(''week'', 7 * 24 * 60 * 60 * 1000), (''w'', 7 * 24 * 60 * 60 * 1000),
      (''day'', 24 * 60 * 60 * 1000), (''d'', 24 * 60 * 60 * 1000),
      (''hour'', 60 * 60 * 1000), (''h'', 60 * 60 * 1000),
      (''minute'', 60 * 1000), (''m'', 60 * 1000),
      (''second'', 1000), (''s'', 1000)]"

definition unit_ms :: "jsval \<Rightarrow> rat option" where
  "unit_ms u = (case u of JStr s \<Rightarrow> map_of unit_table s | _ \<Rightarrow> None)"

definition unit_or_day :: "object \<Rightarrow> jsval" where
  "unit_or_day opts =
     (if truthy (obj_get opts ''unit'') then obj_get opts ''unit'' else JStr ''d'')"

text \<open>Collaborators for the examples: the time filter answers 1000 to 9000.\<close>

definition env_1000_9000 :: collaborators where
  "env_1000_9000 =
     \<lparr>getBounds = \<lparr>min_bound = 1000, max_bound = 9000\<rparr>,
      dashboardContext = Undefined, enableExternalUrls = False\<rparr>"


text \<open>Collaborators for the examples: a dashboard context with two must clauses and a
  single must-not fragment.\<close>

definition env_term_filters :: collaborators where
  "env_term_filters =
     \<lparr>getBounds = \<lparr>min_bound = 1000, max_bound = 9000\<rparr>,
      dashboardContext =
        JObj [(''bool'', JObj [(''must'', JArr [JObj [(''term'', JObj [(''a'', JNum 1)])],
                                              JObj [(''term'', JObj [(''b'', JNum 2)])]]),
                              (''must_not'', JObj [(''term'', JObj [(''c'', JNum 3)])])])],
      enableExternalUrls = False\<rparr>"

text \<open>The errors that the walker over a document can throw.\<close>

definition walker_errors :: "error set" where
  "walker_errors = {InvalidShift, UnknownUnit, InvalidAutoInterval, InvalidTimefilterValue}"

text \<open>
  The value of \<^verbatim>\<open>uri.body || {}\<close>; the range clause that the field-name shorthand
  appends, for the bounds \<open>b\<close> and the field; a dashboard context whose \<^verbatim>\<open>bool.must\<close> can
  be pushed to (an object whose \<^verbatim>\<open>bool\<close> is an object whose \<^verbatim>\<open>must\<close> is an array); and
  such a context with a clause appended to its \<^verbatim>\<open>bool.must\<close>.
\<close>

definition request_body :: "object \<Rightarrow> jsval" where
  "request_body uri = (if truthy (obj_get uri ''body'') then obj_get uri ''body'' else JObj [])"

definition range_clause :: "bounds \<Rightarrow> string \<Rightarrow> jsval" where
  "range_clause b field =
     JObj [(''range'', JObj [(field,
        JObj [(''gte'', JNum (min_bound b)), (''lte'', JNum (max_bound b)),
              (''format'', JStr ''epoch_millis'')])])]"

definition pushable_context :: "jsval \<Rightarrow> bool" where
  "pushable_context ctx =
     (case ctx of
        JObj co \<Rightarrow>
          (case obj_get co ''bool'' of
             JObj bo \<Rightarrow> isArray (obj_get bo ''must'')
           | _ \<Rightarrow> False)
      | _ \<Rightarrow> False)"

definition push_must :: "jsval \<Rightarrow> jsval \<Rightarrow> jsval" where
  "push_must ctx clause =
     (case ctx of
        JObj co \<Rightarrow>
          (case obj_get co ''bool'' of
             JObj bo \<Rightarrow>
               (case obj_get bo ''must'' of
                  JArr m \<Rightarrow> JObj (obj_set co ''bool'' (JObj (obj_set bo ''must'' (JArr (m @ [clause])))))
                | _ \<Rightarrow> ctx)
           | _ \<Rightarrow> ctx)
      | _ \<Rightarrow> ctx)"


text \<open>The test \<^verbatim>\<open>item === MUST_CLAUSE || item === MUST_NOT_CLAUSE\<close> of the array loop.\<close>

definition is_clause_marker :: "jsval \<Rightarrow> bool" where
  "is_clause_marker item \<longleftrightarrow> item = JStr MUST_CLAUSE \<or> item = JStr MUST_NOT_CLAUSE"

text \<open>
  One turn of the loop over the keys, read as a function of the entry \<open>(prop, subObj)\<close>
  at the cursor: the new value of \<^verbatim>\<open>_timeBounds\<close> and of \<^verbatim>\<open>obj[prop]\<close>, or the error
  (\<open>inject_props_entry\<close> proves that this is what \<open>inject_props\<close> does);
  \<open>entry_recurses\<close> says when the turn is the recursive call.
\<close>

definition entry_recurses :: "string \<Rightarrow> jsval \<Rightarrow> bool" where
  "entry_recurses prop subObj \<longleftrightarrow>
     truthy subObj
     \<and> \<not> (prop = ''interval'' \<and> truthy (get_prop subObj AUTOINTERVAL))
     \<and> get_prop subObj TIMEFILTER = Undefined"

definition resolve_entry ::
  "collaborators \<Rightarrow> cache \<Rightarrow> bool \<Rightarrow> string \<Rightarrow> jsval \<Rightarrow> error + (cache \<times> jsval)" where
  "resolve_entry env c isQuery prop subObj =
     (if \<not> truthy subObj then Inr (c, subObj)
      else if prop = ''interval'' \<and> truthy (get_prop subObj AUTOINTERVAL) then
        (case autointerval_size (get_prop subObj AUTOINTERVAL) of
           Inl e \<Rightarrow> Inl e
         | Inr size0 \<Rightarrow>
             Inr (Some (bounds_in_use env c),
                  JStr (roundInterval
                    ((max_bound (bounds_in_use env c) - min_bound (bounds_in_use env c)) / size0))))
      else if get_prop subObj TIMEFILTER = JStr ''min''
            \<or> get_prop subObj TIMEFILTER = JStr ''max'' then
        (case getTimeBound env c (the_object subObj)
                (if get_prop subObj TIMEFILTER = JStr ''min'' then Min else Max) of
           Inl e \<Rightarrow> Inl e
         | Inr (c', t) \<Rightarrow> Inr (c', JNum t))
      else if get_prop subObj TIMEFILTER = JBool True then
        (case createRangeFilter env c (the_object subObj) of
           Inl e \<Rightarrow> Inl e
         | Inr (c', so') \<Rightarrow> Inr (c', JObj so'))
      else if get_prop subObj TIMEFILTER = Undefined then
        injectQueryContextVars env c subObj isQuery
      else Inl InvalidTimefilterValue)"

text \<open>
  A document without placeholder markers, in the positions where the walker looks for
  them: no object, at any depth, has the key \<^verbatim>\<open>%timefilter%\<close> or \<^verbatim>\<open>%autointerval%\<close>, and
  no array, at any depth, has a clause marker as an element.
\<close>

fun marker_free :: "jsval \<Rightarrow> bool"
and marker_free_items :: "jsval list \<Rightarrow> bool"
and marker_free_entries :: "(string \<times> jsval) list \<Rightarrow> bool" where
  "marker_free (JArr xs) = marker_free_items xs"
| "marker_free (JObj kvs) = marker_free_entries kvs"
| "marker_free v = True"
| "marker_free_items [] = True"
| "marker_free_items (x # xs) =
     (x \<noteq> JStr MUST_CLAUSE \<and> x \<noteq> JStr MUST_NOT_CLAUSE \<and> marker_free x \<and> marker_free_items xs)"
| "marker_free_entries [] = True"
| "marker_free_entries ((k, v) # kvs) =
     (k \<noteq> TIMEFILTER \<and> k \<noteq> AUTOINTERVAL \<and> marker_free v \<and> marker_free_entries kvs)"

text \<open>
  Documents for the examples: a resolved query; a range filter whose \<^verbatim>\<open>%timefilter%\<close>
  object has a sibling key with a marker of its own, and that document after one and
  after two runs of the walker.
\<close>

definition doc_nested :: jsval where
  "doc_nested =
     JObj [(''query'', JObj [(''bool'', JObj [(''must'',
        JArr [JObj [(''term'', JObj [(''user'', JStr ''kim'')])],
              JObj [(''range'', JObj [(''@timestamp'',
                 JObj [(''gte'', JNum 1000), (''lte'', JNum 9000),
                       (''format'', JStr ''epoch_millis'')])])]])])])]"

definition doc_sibling :: jsval where
  "doc_sibling =
     JObj [(''range'', JObj [(''@timestamp'',
        JObj [(TIMEFILTER, JBool True), (''boost'', JObj [(TIMEFILTER, JStr ''min'')])])])]"

definition doc_sibling_once :: jsval where
  "doc_sibling_once =
     JObj [(''range'', JObj [(''@timestamp'',
        JObj [(''boost'', JObj [(TIMEFILTER, JStr ''min'')]),
              (''gte'', JNum 1000), (''lte'', JNum 9000),
              (''format'', JStr ''epoch_millis'')])])]"

definition doc_sibling_twice :: jsval where
  "doc_sibling_twice =
     JObj [(''range'', JObj [(''@timestamp'',
        JObj [(''boost'', JNum 1000),
              (''gte'', JNum 1000), (''lte'', JNum 9000),
              (''format'', JStr ''epoch_millis'')])])]"

text \<open>Collaborators for the examples: a dashboard context whose must clause carries a
  placeholder of its own.\<close>

definition env_placeholder_filter :: collaborators where
  "env_placeholder_filter =
     \<lparr>getBounds = \<lparr>min_bound = 1000, max_bound = 9000\<rparr>,
      dashboardContext =
        JObj [(''bool'', JObj [(''must'',
          JArr [JObj [(''range'', JObj [(''@timestamp'', JObj [(TIMEFILTER, JBool True)])])]])])],
      enableExternalUrls = False\<rparr>"



section \<open>Properties of the loader\<close>

subsection \<open>Interval rounding\<close>

text \<open>
  C3. \<open>roundInterval\<close> is a total function of the duration alone, and for every duration
  it answers the bucket of the ordered table of upper bounds: each bound of the table is
  inclusive, the comparison with 3628800000 is strict, and \<open>1y\<close> is the fallback.
\<close>

theorem roundInterval_table: "roundInterval ms = table_bucket ms"
  by (simp add: roundInterval_def table_bucket_def interval_table_def)

theorem roundInterval_table_witness:
  "roundInterval 160 = table_bucket 160 \<and> table_bucket 160 = ''100ms''
   \<and> roundInterval 500 = ''100ms'' \<and> roundInterval 501 = ''1s''
   \<and> roundInterval 1814400000 = ''1w'' \<and> roundInterval 3628799999 = ''30d''
   \<and> roundInterval 3628800000 = ''1y''"
  using roundInterval_table [of 160]
  by (simp add: roundInterval_def table_bucket_def interval_table_def)

subsection \<open>Reading and writing objects\<close>

lemma obj_get_set: "obj_get (obj_set obj k v) k' = (if k' = k then v else obj_get obj k')"
  by (simp add: obj_get_def obj_set_def update_conv')

lemma obj_get_delete:
  "obj_get (obj_delete obj k) k' = (if k' = k then Undefined else obj_get obj k')"
  by (simp add: obj_get_def obj_delete_def delete_conv')

lemma keys_obj_set: "fst ` set (obj_set obj k v) = insert k (fst ` set obj)"
  by (simp add: obj_set_def dom_update)

lemma keys_obj_delete: "fst ` set (obj_delete obj k) = fst ` set obj - {k}"
  by (force simp add: obj_delete_def AList.delete_eq)

subsection \<open>The stored bounds\<close>

lemma getTimeRange_eq: "getTimeRange env c = (Some (bounds_in_use env c), bounds_in_use env c)"
  by (simp add: getTimeRange_def bounds_in_use_def split: option.splits)

lemma bounds_in_use_Some [simp]: "bounds_in_use env (Some b) = b"
  by (simp add: getTimeRange_def bounds_in_use_def)

lemma bounds_in_use_None [simp]: "bounds_in_use env None = getBounds env"
  by (simp add: getTimeRange_def bounds_in_use_def)

lemma unit_multiplier_table: "unit_multiplier u = unit_ms u"
  by (cases u) (auto simp add: unit_multiplier_def unit_ms_def unit_table_def)

lemma getTimeBound_eq:
  "getTimeBound env c opts which =
     (if truthy (obj_get opts ''shift'') then
        (case obj_get opts ''shift'' of
           JNum shift \<Rightarrow>
             (case unit_ms (unit_or_day opts) of
                Some ms \<Rightarrow>
                  Inr (Some (bounds_in_use env c),
                       bound_of (bounds_in_use env c) which + shift * ms)
              | None \<Rightarrow> Inl UnknownUnit)
         | _ \<Rightarrow> Inl InvalidShift)
      else Inr (Some (bounds_in_use env c), bound_of (bounds_in_use env c) which))"
  by (simp add: getTimeBound_def getTimeRange_eq unit_multiplier_table unit_or_day_def
           split: jsval.splits option.splits)

lemma getTimeBound_cache:
  "getTimeBound env c opts which = Inr (c', t) \<Longrightarrow> c' = Some (bounds_in_use env c)"
  by (auto simp add: getTimeBound_eq split: if_splits jsval.splits option.splits)

subsection \<open>Shifted time bounds\<close>




subsection \<open>Range filters\<close>

lemma createRangeFilter_eq:
  "createRangeFilter env c obj =
     (case getTimeBound env c obj Min of
        Inl e \<Rightarrow> Inl e
      | Inr (c1, gte) \<Rightarrow>
          (case getTimeBound env c obj Max of
             Inl e \<Rightarrow> Inl e
           | Inr (c2, lte) \<Rightarrow>
               Inr (Some (bounds_in_use env c),
                 obj_delete
                   (obj_delete
                      (obj_delete
                         (obj_set
                            (obj_set (obj_set obj ''gte'' (JNum gte)) ''lte'' (JNum lte))
                            ''format'' (JStr ''epoch_millis''))
                         TIMEFILTER)
                      ''shift'')
                   ''unit'')))"
  by (simp add: createRangeFilter_def getTimeBound_eq obj_get_set unit_or_day_def
           split: jsval.splits option.splits)

lemma createRangeFilter_cache:
  "createRangeFilter env c obj = Inr (c', obj') \<Longrightarrow> c' = Some (bounds_in_use env c)"
  by (auto simp add: createRangeFilter_eq split: sum.splits)

lemma getTimeBound_min_le_max:
  assumes "getTimeBound env c obj Min = Inr (c1, gte)"
      and "getTimeBound env c obj Max = Inr (c2, lte)"
      and "min_bound (bounds_in_use env c) \<le> max_bound (bounds_in_use env c)"
  shows "gte \<le> lte"
  using assms
  by (auto simp add: getTimeBound_eq split: if_splits jsval.splits option.splits)

text \<open>
  C5. \<^verbatim>\<open>createRangeFilter(obj)\<close> returns the object it was given, updated: whenever it
  returns, \<open>gte\<close> is the \<^verbatim>\<open>min\<close> bound and \<open>lte\<close> the \<^verbatim>\<open>max\<close> bound that
  \<^verbatim>\<open>getTimeBound\<close> resolves for the object, \<open>format\<close> is \<open>epoch_millis\<close>, \<open>gte \<le> lte\<close> when
  the bounds in use are ordered (with or without a shift), the keys \<^verbatim>\<open>%timefilter%\<close>,
  \<open>shift\<close> and \<open>unit\<close> are gone and every other key keeps its value. Without a truthy
  shift it does return, with the bounds themselves.
\<close>

theorem createRangeFilter_result:
  "(\<not> truthy (obj_get obj ''shift'') \<longrightarrow>
      (\<exists>obj'. createRangeFilter env c obj = Inr (Some (bounds_in_use env c), obj')
         \<and> obj_get obj' ''gte'' = JNum (min_bound (bounds_in_use env c))
         \<and> obj_get obj' ''lte'' = JNum (max_bound (bounds_in_use env c))))
   \<and> (\<forall>c' obj'. createRangeFilter env c obj = Inr (c', obj') \<longrightarrow>
      (\<exists>gte lte.
         getTimeBound env c obj Min = Inr (c', gte)
         \<and> getTimeBound env c obj Max = Inr (c', lte)
         \<and> obj_get obj' ''gte'' = JNum gte
         \<and> obj_get obj' ''lte'' = JNum lte
         \<and> obj_get obj' ''format'' = JStr ''epoch_millis''
         \<and> (min_bound (bounds_in_use env c) \<le> max_bound (bounds_in_use env c) \<longrightarrow> gte \<le> lte)
         \<and> TIMEFILTER \<notin> fst ` set obj' \<and> ''shift'' \<notin> fst ` set obj' \<and> ''unit'' \<notin> fst ` set obj'
         \<and> (\<forall>k. k \<notin> {''gte'', ''lte'', ''format'', TIMEFILTER, ''shift'', ''unit''} \<longrightarrow>
               obj_get obj' k = obj_get obj k)))"
proof (intro conjI impI allI)
  assume "\<not> truthy (obj_get obj ''shift'')"
  then show "\<exists>obj'. createRangeFilter env c obj = Inr (Some (bounds_in_use env c), obj')
         \<and> obj_get obj' ''gte'' = JNum (min_bound (bounds_in_use env c))
         \<and> obj_get obj' ''lte'' = JNum (max_bound (bounds_in_use env c))"
    by (simp add: createRangeFilter_eq getTimeBound_eq obj_get_set obj_get_delete TIMEFILTER_def)
next
  fix c' obj'
  assume ok: "createRangeFilter env c obj = Inr (c', obj')"
  then obtain c1 gte c2 lte where
    lo: "getTimeBound env c obj Min = Inr (c1, gte)" and
    hi: "getTimeBound env c obj Max = Inr (c2, lte)"
    by (auto simp add: createRangeFilter_eq split: sum.splits)
  have c': "c' = Some (bounds_in_use env c)"
    using ok by (rule createRangeFilter_cache)
  have c1: "c1 = c'" and c2: "c2 = c'"
    using lo hi c' by (auto dest: getTimeBound_cache)
  have obj': "obj' =
      obj_delete (obj_delete (obj_delete
        (obj_set (obj_set (obj_set obj ''gte'' (JNum gte)) ''lte'' (JNum lte))
           ''format'' (JStr ''epoch_millis'')) TIMEFILTER) ''shift'') ''unit''"
    using ok lo hi by (simp add: createRangeFilter_eq)
  have le: "min_bound (bounds_in_use env c) \<le> max_bound (bounds_in_use env c) \<longrightarrow> gte \<le> lte"
    using getTimeBound_min_le_max [OF lo hi] by blast
  have gets: "obj_get obj' ''gte'' = JNum gte" "obj_get obj' ''lte'' = JNum lte"
      "obj_get obj' ''format'' = JStr ''epoch_millis''"
    by (simp_all add: obj' obj_get_set obj_get_delete TIMEFILTER_def)
  have keys: "TIMEFILTER \<notin> fst ` set obj'" "''shift'' \<notin> fst ` set obj'"
      "''unit'' \<notin> fst ` set obj'"
    by (simp_all add: obj' keys_obj_delete)
  have others: "\<forall>k. k \<notin> {''gte'', ''lte'', ''format'', TIMEFILTER, ''shift'', ''unit''} \<longrightarrow>
               obj_get obj' k = obj_get obj k"
    by (simp add: obj' obj_get_set obj_get_delete)
  show "\<exists>gte lte.
         getTimeBound env c obj Min = Inr (c', gte)
         \<and> getTimeBound env c obj Max = Inr (c', lte)
         \<and> obj_get obj' ''gte'' = JNum gte
         \<and> obj_get obj' ''lte'' = JNum lte
         \<and> obj_get obj' ''format'' = JStr ''epoch_millis''
         \<and> (min_bound (bounds_in_use env c) \<le> max_bound (bounds_in_use env c) \<longrightarrow> gte \<le> lte)
         \<and> TIMEFILTER \<notin> fst ` set obj' \<and> ''shift'' \<notin> fst ` set obj' \<and> ''unit'' \<notin> fst ` set obj'
         \<and> (\<forall>k. k \<notin> {''gte'', ''lte'', ''format'', TIMEFILTER, ''shift'', ''unit''} \<longrightarrow>
               obj_get obj' k = obj_get obj k)"
    using lo hi c1 c2 le gets keys others by blast
qed

lemma createRangeFilter_example:
  "createRangeFilter env_1000_9000 None
     [(TIMEFILTER, JBool True), (''shift'', JNum 1), (''unit'', JStr ''s''), (''boost'', JNum 2)]
   = Inr (Some \<lparr>min_bound = 1000, max_bound = 9000\<rparr>,
          [(''boost'', JNum 2), (''gte'', JNum 2000), (''lte'', JNum 10000),
           (''format'', JStr ''epoch_millis'')])"
  by (simp add: createRangeFilter_def getTimeBound_def getTimeRange_def obj_get_def obj_set_def
        obj_delete_def unit_multiplier_def TIMEFILTER_def env_1000_9000_def)

theorem createRangeFilter_result_witness:
  "createRangeFilter env_1000_9000 None
     [(TIMEFILTER, JBool True), (''shift'', JNum 1), (''unit'', JStr ''s''), (''boost'', JNum 2)]
   = Inr (Some \<lparr>min_bound = 1000, max_bound = 9000\<rparr>,
          [(''boost'', JNum 2), (''gte'', JNum 2000), (''lte'', JNum 10000),
           (''format'', JStr ''epoch_millis'')])
   \<and> min_bound (bounds_in_use env_1000_9000 None) \<le> max_bound (bounds_in_use env_1000_9000 None)
   \<and> (\<exists>gte lte.
         obj_get [(''boost'', JNum 2), (''gte'', JNum 2000), (''lte'', JNum 10000),
           (''format'', JStr ''epoch_millis'')] ''gte'' = JNum gte
       \<and> obj_get [(''boost'', JNum 2), (''gte'', JNum 2000), (''lte'', JNum 10000),
           (''format'', JStr ''epoch_millis'')] ''lte'' = JNum lte
       \<and> gte \<le> lte)
   \<and> \<not> truthy (obj_get [(TIMEFILTER, JBool True)] ''shift'')
   \<and> (\<exists>obj'. createRangeFilter env_1000_9000 None [(TIMEFILTER, JBool True)]
          = Inr (Some \<lparr>min_bound = 1000, max_bound = 9000\<rparr>, obj')
        \<and> obj_get obj' ''gte'' = JNum 1000 \<and> obj_get obj' ''lte'' = JNum 9000)"
  using createRangeFilter_result
          [of "[(TIMEFILTER, JBool True), (''shift'', JNum 1), (''unit'', JStr ''s''),
                (''boost'', JNum 2)]" env_1000_9000 None]
        createRangeFilter_result [of "[(TIMEFILTER, JBool True)]" env_1000_9000 None]
        createRangeFilter_example
  by (simp add: obj_get_def TIMEFILTER_def env_1000_9000_def)

subsection \<open>Clause markers in arrays\<close>




lemma splice_walk_example:
  "injectQueryContextVars env_term_filters None
     (JArr [JStr MUST_CLAUSE, JStr MUST_NOT_CLAUSE, JNum 9]) True
   = Inr (None, JArr [JObj [(''term'', JObj [(''a'', JNum 1)])],
                      JObj [(''term'', JObj [(''b'', JNum 2)])],
                      JObj [(''term'', JObj [(''c'', JNum 3)])], JNum 9])"
  by code_simp

lemma remove_walk_example:
  "injectQueryContextVars env_1000_9000 None
     (JArr [JStr MUST_CLAUSE, JStr MUST_NOT_CLAUSE, JStr MUST_CLAUSE, JNum 9]) True
   = Inr (None, JArr [JNum 9])"
  by code_simp

lemma unchanged_in_aggs_example:
  "injectQueryContextVars env_term_filters None
     (JArr [JStr MUST_CLAUSE, JStr MUST_NOT_CLAUSE, JNum 9]) False
   = Inr (None, JArr [JStr MUST_CLAUSE, JStr MUST_NOT_CLAUSE, JNum 9])"
  by code_simp



subsection \<open>Errors of the walker\<close>

lemma InvalidTimefilterValue_walker: "InvalidTimefilterValue \<in> walker_errors"
  by (simp add: walker_errors_def)

lemma getTimeBound_errors:
  "getTimeBound env c opts which = Inl e \<Longrightarrow> e \<in> walker_errors"
  by (auto simp add: getTimeBound_eq walker_errors_def split: if_splits jsval.splits option.splits)

lemma createRangeFilter_errors:
  "createRangeFilter env c obj = Inl e \<Longrightarrow> e \<in> walker_errors"
  by (auto simp add: createRangeFilter_eq split: sum.splits dest: getTimeBound_errors)

lemma autointerval_size_errors:
  "autointerval_size v = Inl e \<Longrightarrow> e \<in> walker_errors"
  by (auto simp add: autointerval_size_def walker_errors_def split: if_splits jsval.splits)

lemma walker_fails_with:
  "injectQueryContextVars env c v q = Inl e \<Longrightarrow> e \<in> walker_errors"
  "inject_array env c q pos xs = Inl e \<Longrightarrow> e \<in> walker_errors"
  "inject_props env c q i kvs = Inl e \<Longrightarrow> e \<in> walker_errors"
proof (induction env c v q and env c q pos xs and env c q i kvs
       arbitrary: e and e and e
       rule: injectQueryContextVars_inject_array_inject_props.induct)
  case (4 env c isQuery pos obj)
  from "4.prems" show ?case
    by (subst (asm) inject_array.simps)
       (auto split: if_splits sum.splits prod.splits dest: "4.IH")
next
  case (5 env c isQuery i obj)
  from "5.prems" show ?case
    by (subst (asm) inject_props.simps)
       (auto simp add: getTimeRange_eq InvalidTimefilterValue_walker
             split: if_splits sum.splits prod.splits
             dest: "5.IH" getTimeBound_errors createRangeFilter_errors autointerval_size_errors)
qed (auto split: sum.splits)

subsection \<open>The request builder\<close>

lemma obj_set_again: "obj_set (obj_set obj k v) k v' = obj_set obj k v'"
  by (simp add: obj_set_def update_last)

lemma obj_get_in_keys: "obj_get obj k \<noteq> Undefined \<Longrightarrow> k \<in> fst ` set obj"
  by (auto simp add: obj_get_def split: option.splits dest: map_of_SomeD intro: rev_image_eqI)

lemma get_prop_store_back:
  "get_prop (store_back w k v) k' =
     (if k' = k \<and> (\<exists>obj. w = JObj obj \<and> k \<in> fst ` set obj) then v else get_prop w k')"
  by (cases w) (auto simp add: store_back_def obj_get_set)

lemma createRangeFilter_marker:
  "createRangeFilter env c [(TIMEFILTER, JBool True)] =
     Inr (Some (bounds_in_use env c),
          [(''gte'', JNum (min_bound (bounds_in_use env c))),
           (''lte'', JNum (max_bound (bounds_in_use env c))),
           (''format'', JStr ''epoch_millis'')])"
  by (simp add: createRangeFilter_eq getTimeBound_eq obj_get_def obj_set_def obj_delete_def
        TIMEFILTER_def)

lemma push_range_eq:
  "push_range env c ctx field =
     (if pushable_context ctx then
        Inr (Some (bounds_in_use env c), push_must ctx (range_clause (bounds_in_use env c) field))
      else Inl TypeError)"
proof (cases ctx)
  case (JObj co)
  show ?thesis
  proof (cases "obj_get co ''bool''")
    case (JObj bo)
    have "''bool'' \<in> fst ` set co"
      using JObj by (auto intro: obj_get_in_keys)
    moreover have "\<And>m. obj_get bo ''must'' = JArr m \<Longrightarrow> ''must'' \<in> fst ` set bo"
      by (auto intro: obj_get_in_keys)
    ultimately show ?thesis
      using \<open>ctx = JObj co\<close> JObj
      by (cases "obj_get bo ''must''")
         (simp_all add: push_range_def pushable_context_def push_must_def createRangeFilter_marker
            range_clause_def store_back_def)
  qed (simp_all add: JObj push_range_def pushable_context_def createRangeFilter_marker)
qed (simp_all add: push_range_def pushable_context_def)

lemma simple_query_eq:
  "simple_query env c uri body =
     (if truthy (get_prop body ''query'') then Inl ConflictingQuery
      else if obj_get uri SIMPLE_QUERY \<noteq> JBool True
              \<and> \<not> (typeof (obj_get uri SIMPLE_QUERY) = TString
                     \<and> the_string (obj_get uri SIMPLE_QUERY) \<noteq> []) then
        Inl InvalidContextQueryField
      else
        (case body of
           JObj b \<Rightarrow>
             if obj_get uri SIMPLE_QUERY = JBool True then
               Inr (c, obj_delete uri SIMPLE_QUERY, JObj (obj_set b ''query'' (dashboardContext env)))
             else if pushable_context (dashboardContext env) then
               Inr (Some (bounds_in_use env c), obj_delete uri SIMPLE_QUERY,
                    JObj (obj_set b ''query''
                      (push_must (dashboardContext env)
                         (range_clause (bounds_in_use env c)
                            (the_string (obj_get uri SIMPLE_QUERY))))))
             else Inl TypeError
         | JArr xs \<Rightarrow> Inl Unmodelled
         | _ \<Rightarrow> Inl TypeError))"
  by (cases body)
     (simp_all add: simple_query_def Let_def push_range_eq obj_get_set store_back_def
        keys_obj_set obj_set_again)

lemma walker_not_request_error:
  "injectQueryContextVars env c v q \<noteq> Inl ConflictingQuery"
  "injectQueryContextVars env c v q \<noteq> Inl InvalidContextQueryField"
  "injectQueryContextVars env c v q \<noteq> Inl TypeError"
  "injectQueryContextVars env c v q \<noteq> Inl Unmodelled"
  "injectQueryContextVars env c v q \<noteq> Inl UnexpectedUrlObject"
  "injectQueryContextVars env c v q \<noteq> Inl ExternalUrlsDisabled"
  using walker_fails_with(1) [of env c v q] by (auto simp add: walker_errors_def)

lemma marker_beside_body:
  "obj_get (obj_set uri ''body'' v) SIMPLE_QUERY = obj_get uri SIMPLE_QUERY"
  by (simp add: obj_get_set SIMPLE_QUERY_def)

lemma queryEsData_marker:
  assumes "truthy (obj_get uri SIMPLE_QUERY)"
  shows "queryEsData env c uri =
     (case simple_query env c (obj_set uri ''body'' (request_body uri)) (request_body uri) of
        Inl e \<Rightarrow> Inl e
      | Inr (c1, uri1, body1) \<Rightarrow>
          (case injectQueryContextVars env c1 (get_prop body1 ''aggs'') False of
             Inl e \<Rightarrow> Inl e
           | Inr (c2, aggs') \<Rightarrow>
               Inr (c2, obj_set uri1 ''body'' (store_back body1 ''aggs'' aggs'))))"
  using assms
  by (simp add: queryEsData_def request_body_def Let_def obj_get_set SIMPLE_QUERY_def)



text \<open>
  C2, amended. The test \<^verbatim>\<open>if (uri[SIMPLE_QUERY])\<close> is on the truth value of the marker. For
  a truthy marker, \<^verbatim>\<open>queryEsData\<close> fails with \<open>ConflictingQuery\<close> exactly when
  \<^verbatim>\<open>body.query\<close> is truthy; when it is not, it fails with \<open>InvalidContextQueryField\<close>
  exactly when the marker is neither \<^verbatim>\<open>true\<close> nor a non-empty string; and whenever it
  returns, the marker key is gone from the request and \<^verbatim>\<open>body.query\<close> is the dashboard
  context, with the range clause on the field appended to its \<^verbatim>\<open>bool.must\<close> when the
  marker is a field name.
\<close>

theorem simple_query_request:
  assumes "truthy (obj_get uri SIMPLE_QUERY)"
  shows "(queryEsData env c uri = Inl ConflictingQuery
            \<longleftrightarrow> truthy (get_prop (request_body uri) ''query''))
       \<and> (\<not> truthy (get_prop (request_body uri) ''query'') \<longrightarrow>
            (queryEsData env c uri = Inl InvalidContextQueryField
               \<longleftrightarrow> obj_get uri SIMPLE_QUERY \<noteq> JBool True
                    \<and> \<not> (typeof (obj_get uri SIMPLE_QUERY) = TString
                           \<and> the_string (obj_get uri SIMPLE_QUERY) \<noteq> [])))
       \<and> (\<forall>c' request. queryEsData env c uri = Inr (c', request) \<longrightarrow>
            SIMPLE_QUERY \<notin> fst ` set request
            \<and> (obj_get uri SIMPLE_QUERY = JBool True \<longrightarrow>
                 get_prop (obj_get request ''body'') ''query'' = dashboardContext env)
            \<and> (obj_get uri SIMPLE_QUERY \<noteq> JBool True \<longrightarrow>
                 pushable_context (dashboardContext env)
                 \<and> get_prop (obj_get request ''body'') ''query'' =
                     push_must (dashboardContext env)
                       (range_clause (bounds_in_use env c) (the_string (obj_get uri SIMPLE_QUERY)))))"
proof (intro conjI impI allI)
  show "queryEsData env c uri = Inl ConflictingQuery
          \<longleftrightarrow> truthy (get_prop (request_body uri) ''query'')"
    unfolding queryEsData_marker [OF assms] simple_query_eq
    by (auto split: sum.splits jsval.splits simp add: walker_not_request_error marker_beside_body)
next
  assume "\<not> truthy (get_prop (request_body uri) ''query'')"
  then show "queryEsData env c uri = Inl InvalidContextQueryField
               \<longleftrightarrow> obj_get uri SIMPLE_QUERY \<noteq> JBool True
                    \<and> \<not> (typeof (obj_get uri SIMPLE_QUERY) = TString
                           \<and> the_string (obj_get uri SIMPLE_QUERY) \<noteq> [])"
    unfolding queryEsData_marker [OF assms] simple_query_eq
    by (auto split: sum.splits jsval.splits simp add: walker_not_request_error marker_beside_body)
next
  fix c' request
  assume ok: "queryEsData env c uri = Inr (c', request)"
  then obtain c1 uri1 body1 c2 aggs' where
    sq: "simple_query env c (obj_set uri ''body'' (request_body uri)) (request_body uri)
           = Inr (c1, uri1, body1)" and
    req: "request = obj_set uri1 ''body'' (store_back body1 ''aggs'' aggs')"
    unfolding queryEsData_marker [OF assms] by (auto split: sum.splits)
  from sq obtain b where
    body: "request_body uri = JObj b" and
    uri1: "uri1 = obj_delete (obj_set uri ''body'' (request_body uri)) SIMPLE_QUERY"
    unfolding simple_query_eq by (auto split: if_splits jsval.splits)
  show "SIMPLE_QUERY \<notin> fst ` set request"
    by (simp add: req uri1 keys_obj_set keys_obj_delete SIMPLE_QUERY_def)
  have q: "get_prop (obj_get request ''body'') ''query'' = get_prop body1 ''query''"
    by (simp add: req obj_get_set get_prop_store_back)
  {
    assume "obj_get uri SIMPLE_QUERY = JBool True"
    then show "get_prop (obj_get request ''body'') ''query'' = dashboardContext env"
      using sq body unfolding q simple_query_eq
      by (auto simp add: obj_get_set marker_beside_body split: if_splits)
  }
  {
    assume "obj_get uri SIMPLE_QUERY \<noteq> JBool True"
    then show "pushable_context (dashboardContext env)"
      and "get_prop (obj_get request ''body'') ''query'' =
             push_must (dashboardContext env)
               (range_clause (bounds_in_use env c) (the_string (obj_get uri SIMPLE_QUERY)))"
      using sq body unfolding q simple_query_eq
      by (auto simp add: obj_get_set marker_beside_body split: if_splits)
  }
qed

theorem simple_query_request_witness:
  "truthy (obj_get [(SIMPLE_QUERY, JBool True)] SIMPLE_QUERY)
   \<and> queryEsData env_term_filters None [(SIMPLE_QUERY, JBool True)] =
       Inr (None, [(''body'', JObj [(''query'', dashboardContext env_term_filters)])])
   \<and> SIMPLE_QUERY \<notin> fst ` set [(''body'', JObj [(''query'', dashboardContext env_term_filters)])]
   \<and> get_prop (obj_get [(''body'', JObj [(''query'', dashboardContext env_term_filters)])] ''body'')
        ''query'' = dashboardContext env_term_filters
   \<and> queryEsData env_term_filters None
        [(SIMPLE_QUERY, JBool True), (''body'', JObj [(''query'', JObj [(''match_all'', JObj [])])])]
       = Inl ConflictingQuery
   \<and> queryEsData env_term_filters None [(SIMPLE_QUERY, JNum 7)] = Inl InvalidContextQueryField"
proof -
  have marker: "truthy (obj_get [(SIMPLE_QUERY, JBool True)] SIMPLE_QUERY)"
    by (simp add: obj_get_def)
  have run: "queryEsData env_term_filters None [(SIMPLE_QUERY, JBool True)] =
       Inr (None, [(''body'', JObj [(''query'', dashboardContext env_term_filters)])])"
    by code_simp
  have "SIMPLE_QUERY \<notin> fst ` set [(''body'', JObj [(''query'', dashboardContext env_term_filters)])]
     \<and> get_prop (obj_get [(''body'', JObj [(''query'', dashboardContext env_term_filters)])] ''body'')
          ''query'' = dashboardContext env_term_filters"
    using simple_query_request [OF marker, of env_term_filters None] run
    by (simp add: obj_get_def)
  moreover have "queryEsData env_term_filters None
        [(SIMPLE_QUERY, JBool True), (''body'', JObj [(''query'', JObj [(''match_all'', JObj [])])])]
       = Inl ConflictingQuery"
    using simple_query_request
      [of "[(SIMPLE_QUERY, JBool True),
            (''body'', JObj [(''query'', JObj [(''match_all'', JObj [])])])]" env_term_filters None]
    by (simp add: obj_get_def request_body_def SIMPLE_QUERY_def)
  moreover have "queryEsData env_term_filters None [(SIMPLE_QUERY, JNum 7)]
       = Inl InvalidContextQueryField"
    using simple_query_request [of "[(SIMPLE_QUERY, JNum 7)]" env_term_filters None]
    by (simp add: obj_get_def request_body_def SIMPLE_QUERY_def)
  ultimately show ?thesis
    using marker run by blast
qed

text \<open>
  The claim as stated, with the marker key merely present: under
  \<^verbatim>\<open>"%context_query%": false\<close> a request with a \<^verbatim>\<open>body.query\<close> is not refused as a
  conflict, and a request without one is not refused for its marker value; the walker
  runs instead and the marker key stays.
\<close>

theorem simple_query_request_counterexample:
  "map_of [(SIMPLE_QUERY, JBool False),
           (''body'', JObj [(''query'', JObj [(''match_all'', JObj [])])])] SIMPLE_QUERY
     = Some (JBool False)
   \<and> truthy (get_prop (request_body
        [(SIMPLE_QUERY, JBool False),
         (''body'', JObj [(''query'', JObj [(''match_all'', JObj [])])])]) ''query'')
   \<and> queryEsData env_term_filters None
        [(SIMPLE_QUERY, JBool False),
         (''body'', JObj [(''query'', JObj [(''match_all'', JObj [])])])]
       = Inr (None, [(SIMPLE_QUERY, JBool False),
                     (''body'', JObj [(''query'', JObj [(''match_all'', JObj [])])])])
   \<and> queryEsData env_term_filters None [(SIMPLE_QUERY, JBool False)]
       = Inr (None, [(SIMPLE_QUERY, JBool False), (''body'', JObj [])])"
proof -
  have "queryEsData env_term_filters None
        [(SIMPLE_QUERY, JBool False),
         (''body'', JObj [(''query'', JObj [(''match_all'', JObj [])])])]
       = Inr (None, [(SIMPLE_QUERY, JBool False),
                     (''body'', JObj [(''query'', JObj [(''match_all'', JObj [])])])])"
    by code_simp
  moreover have "queryEsData env_term_filters None [(SIMPLE_QUERY, JBool False)]
       = Inr (None, [(SIMPLE_QUERY, JBool False), (''body'', JObj [])])"
    by code_simp
  ultimately show ?thesis
    by (simp add: request_body_def obj_get_def SIMPLE_QUERY_def)
qed

subsection \<open>The field-name shorthand and the dashboard context\<close>

lemma obj_get_Nil: "obj_get [] k = Undefined"
  by (simp add: obj_get_def)

lemma obj_get_Cons: "obj_get ((k, v) # obj) k' = (if k' = k then v else obj_get obj k')"
  by (simp add: obj_get_def)

lemma SIMPLE_QUERY_not_body: "SIMPLE_QUERY \<noteq> ''body''"
  by (simp add: SIMPLE_QUERY_def)

lemma obj_set_Nil: "obj_set [] k v = [(k, v)]"
  by (simp add: obj_set_def)

text \<open>What a pushable context is, and the shapes of the claim that are not.\<close>

lemma pushable_context_iff:
  "pushable_context ctx \<longleftrightarrow>
     (\<exists>co bo m. ctx = JObj co \<and> obj_get co ''bool'' = JObj bo \<and> obj_get bo ''must'' = JArr m)"
  by (auto simp add: pushable_context_def split: jsval.splits elim: isArray.elims)

lemma not_pushable_cases:
  "\<not> truthy ctx \<or> get_prop ctx ''bool'' = Undefined
     \<or> get_prop (get_prop ctx ''bool'') ''must'' = Undefined \<Longrightarrow> \<not> pushable_context ctx"
  by (auto simp add: pushable_context_def split: jsval.splits)

text \<open>
  C10. With a non-empty field name under \<^verbatim>\<open>%context_query%\<close> (and no \<^verbatim>\<open>body.query\<close>),
  \<^verbatim>\<open>queryEsData\<close> reads \<^verbatim>\<open>dashboardContext().bool.must\<close> and calls its \<^verbatim>\<open>push\<close> without
  a guard: it returns only if the context is an object whose \<^verbatim>\<open>bool\<close> is an object whose
  \<^verbatim>\<open>must\<close> is an array; for every other context, among them a falsy one and one without
  \<^verbatim>\<open>bool\<close> or \<^verbatim>\<open>bool.must\<close>, it fails with a \<open>TypeError\<close> (the body being no array);
  and with such a context and no body it does return, the range clause appended.
\<close>

theorem field_query_needs_must:
  assumes "obj_get uri SIMPLE_QUERY = JStr field" and "field \<noteq> []"
      and "\<not> truthy (get_prop (request_body uri) ''query'')"
  shows "((\<exists>c' request. queryEsData env c uri = Inr (c', request)) \<longrightarrow>
            pushable_context (dashboardContext env))
       \<and> (\<not> pushable_context (dashboardContext env) \<and> \<not> isArray (request_body uri) \<longrightarrow>
            queryEsData env c uri = Inl TypeError)
       \<and> ((\<not> truthy (dashboardContext env)
             \<or> get_prop (dashboardContext env) ''bool'' = Undefined
             \<or> get_prop (get_prop (dashboardContext env) ''bool'') ''must'' = Undefined)
           \<and> \<not> isArray (request_body uri) \<longrightarrow>
            queryEsData env c uri = Inl TypeError)
       \<and> (pushable_context (dashboardContext env) \<and> request_body uri = JObj [] \<longrightarrow>
            queryEsData env c uri =
              Inr (Some (bounds_in_use env c),
                   obj_set (obj_delete (obj_set uri ''body'' (JObj [])) SIMPLE_QUERY) ''body''
                     (JObj [(''query'',
                        push_must (dashboardContext env)
                          (range_clause (bounds_in_use env c) field))])))"
proof -
  have marker: "truthy (obj_get uri SIMPLE_QUERY)"
    using assms(1,2) by simp
  have shapes: "\<not> truthy (dashboardContext env)
        \<or> get_prop (dashboardContext env) ''bool'' = Undefined
        \<or> get_prop (get_prop (dashboardContext env) ''bool'') ''must'' = Undefined
      \<Longrightarrow> \<not> pushable_context (dashboardContext env)"
    by (rule not_pushable_cases)
  show ?thesis
    using assms shapes unfolding queryEsData_marker [OF marker] simple_query_eq
    by (cases "request_body uri")
       (auto simp add: marker_beside_body obj_set_Nil obj_get_Nil obj_get_Cons obj_get_set
          store_back_def SIMPLE_QUERY_not_body split: sum.splits if_splits)
qed

theorem field_query_needs_must_witness:
  "obj_get [(SIMPLE_QUERY, JStr ''@timestamp'')] SIMPLE_QUERY = JStr ''@timestamp''
   \<and> ''@timestamp'' \<noteq> []
   \<and> \<not> truthy (get_prop (request_body [(SIMPLE_QUERY, JStr ''@timestamp'')]) ''query'')
   \<and> \<not> pushable_context (dashboardContext env_1000_9000)
   \<and> queryEsData env_1000_9000 None [(SIMPLE_QUERY, JStr ''@timestamp'')] = Inl TypeError
   \<and> pushable_context (dashboardContext env_term_filters)
   \<and> queryEsData env_term_filters None [(SIMPLE_QUERY, JStr ''@timestamp'')] =
       Inr (Some \<lparr>min_bound = 1000, max_bound = 9000\<rparr>,
         [(''body'', JObj [(''query'',
            JObj [(''bool'', JObj [(''must'',
               JArr [JObj [(''term'', JObj [(''a'', JNum 1)])],
                     JObj [(''term'', JObj [(''b'', JNum 2)])],
                     JObj [(''range'', JObj [(''@timestamp'',
                        JObj [(''gte'', JNum 1000), (''lte'', JNum 9000),
                              (''format'', JStr ''epoch_millis'')])])]]),
               (''must_not'', JObj [(''term'', JObj [(''c'', JNum 3)])])])])])])"
proof -
  let ?uri = "[(SIMPLE_QUERY, JStr ''@timestamp'')]"
  have marker: "obj_get ?uri SIMPLE_QUERY = JStr ''@timestamp''"
    by (simp add: obj_get_def)
  have field: "''@timestamp'' \<noteq> []"
    by simp
  have body: "request_body ?uri = JObj []"
    by (simp add: request_body_def obj_get_def SIMPLE_QUERY_def)
  have no_query: "\<not> truthy (get_prop (request_body ?uri) ''query'')"
    by (simp add: body obj_get_def)
  have bad: "\<not> pushable_context (dashboardContext env_1000_9000)"
    by (simp add: pushable_context_def env_1000_9000_def)
  have good: "pushable_context (dashboardContext env_term_filters)"
    by (simp add: pushable_context_def env_term_filters_def obj_get_def)
  have "queryEsData env_1000_9000 None ?uri = Inl TypeError"
    using field_query_needs_must [OF marker field no_query, of env_1000_9000 None] bad body
    by simp
  moreover have "queryEsData env_term_filters None ?uri =
       Inr (Some \<lparr>min_bound = 1000, max_bound = 9000\<rparr>,
         [(''body'', JObj [(''query'',
            JObj [(''bool'', JObj [(''must'',
               JArr [JObj [(''term'', JObj [(''a'', JNum 1)])],
                     JObj [(''term'', JObj [(''b'', JNum 2)])],
                     JObj [(''range'', JObj [(''@timestamp'',
                        JObj [(''gte'', JNum 1000), (''lte'', JNum 9000),
                              (''format'', JStr ''epoch_millis'')])])]]),
               (''must_not'', JObj [(''term'', JObj [(''c'', JNum 3)])])])])])])"
    by code_simp
  ultimately show ?thesis
    using marker field no_query bad good by blast
qed

subsection \<open>The loader\<close>



subsection \<open>The two loops, one turn at a time\<close>

lemma inject_array_end:
  "\<not> pos < length obj \<Longrightarrow> inject_array env c isQuery pos obj = Inr (c, obj)"
  by (subst inject_array.simps) simp


lemma inject_array_item:
  "pos < length obj \<Longrightarrow> \<not> (isQuery \<and> is_clause_marker (obj ! pos)) \<Longrightarrow>
     inject_array env c isQuery pos obj =
       (case injectQueryContextVars env c (obj ! pos) isQuery of
          Inl e \<Rightarrow> Inl e
        | Inr (c', item') \<Rightarrow> inject_array env c' isQuery (Suc pos) (obj[pos := item']))"
  by (subst inject_array.simps) (auto simp add: is_clause_marker_def)

lemma inject_props_end:
  "\<not> i < length obj \<Longrightarrow> inject_props env c isQuery i obj = Inr (c, obj)"
  by (subst inject_props.simps) simp

lemma inject_props_entry:
  assumes "i < length obj" and "obj ! i = (prop, subObj)"
  shows "inject_props env c isQuery i obj =
       (case resolve_entry env c isQuery prop subObj of
          Inl e \<Rightarrow> Inl e
        | Inr (c', v') \<Rightarrow> inject_props env c' isQuery (Suc i) (obj[i := (prop, v')]))"
proof -
  have same: "obj[i := (prop, subObj)] = obj"
    using assms(2) [symmetric] by simp
  show ?thesis
    using assms
    by (subst inject_props.simps)
       (simp add: resolve_entry_def getTimeRange_eq same split: sum.splits)
qed

lemma walker_induct [case_names leaf array object array_end clause item props_end entry]:
  assumes leaf: "\<And>c v. \<not> (truthy v \<and> typeof v = TObject) \<Longrightarrow> P c v"
      and array: "\<And>c xs. Q c 0 xs \<Longrightarrow> P c (JArr xs)"
      and object: "\<And>c kvs. R c 0 kvs \<Longrightarrow> P c (JObj kvs)"
      and array_end: "\<And>c pos xs. \<not> pos < length xs \<Longrightarrow> Q c pos xs"
      and clause: "\<And>c pos xs. pos < length xs \<Longrightarrow> isQuery \<Longrightarrow> is_clause_marker (xs ! pos) \<Longrightarrow>
             Q c (fst (replace_clause env (xs ! pos) pos xs))
               (snd (replace_clause env (xs ! pos) pos xs)) \<Longrightarrow>
             Q c pos xs"
      and item: "\<And>c pos xs. pos < length xs \<Longrightarrow> \<not> (isQuery \<and> is_clause_marker (xs ! pos)) \<Longrightarrow>
             P c (xs ! pos) \<Longrightarrow>
             (\<And>c' item'. injectQueryContextVars env c (xs ! pos) isQuery = Inr (c', item') \<Longrightarrow>
                Q c' (Suc pos) (xs[pos := item'])) \<Longrightarrow>
             Q c pos xs"
      and props_end: "\<And>c i kvs. \<not> i < length kvs \<Longrightarrow> R c i kvs"
      and entry: "\<And>c i kvs prop subObj. i < length kvs \<Longrightarrow> kvs ! i = (prop, subObj) \<Longrightarrow>
             (entry_recurses prop subObj \<Longrightarrow> P c subObj) \<Longrightarrow>
             (\<And>c' v'. resolve_entry env c isQuery prop subObj = Inr (c', v') \<Longrightarrow>
                R c' (Suc i) (kvs[i := (prop, v')])) \<Longrightarrow>
             R c i kvs"
  shows "P c v" and "Q c pos xs" and "R c i kvs"
proof -
  have "(env' = env \<and> q = isQuery \<longrightarrow> P c v)"
    and "(env' = env \<and> q = isQuery \<longrightarrow> Q c pos xs)"
    and "(env' = env \<and> q = isQuery \<longrightarrow> R c i kvs)"
    for env' q
  proof (induction env' c v q and env' c q pos xs and env' c q i kvs
         rule: injectQueryContextVars_inject_array_inject_props.induct)
    case (1 env' c obj q)
    then show ?case by (auto intro: array)
  next
    case (2 env' c obj q)
    then show ?case by (auto intro: object)
  next
    case (4 env' c q pos obj)
    show ?case
    proof (intro impI, elim conjE)
      assume eq: "env' = env" "q = isQuery"
      show "Q c pos obj"
      proof (cases "pos < length obj")
        case False
        then show ?thesis by (rule array_end)
      next
        case len: True
        show ?thesis
        proof (cases "isQuery \<and> is_clause_marker (obj ! pos)")
          case True
          then have m: "q \<and> (obj ! pos = JStr MUST_CLAUSE \<or> obj ! pos = JStr MUST_NOT_CLAUSE)"
            by (simp add: eq is_clause_marker_def)
          have "Q c (fst (replace_clause env (obj ! pos) pos obj))
                  (snd (replace_clause env (obj ! pos) pos obj))"
            using "4.IH"(1) [OF len m, of "fst (replace_clause env' (obj ! pos) pos obj)"
                    "snd (replace_clause env' (obj ! pos) pos obj)"] eq
            by simp
          with len True show ?thesis by (auto intro: clause)
        next
          case False
          then have m: "\<not> (q \<and> (obj ! pos = JStr MUST_CLAUSE \<or> obj ! pos = JStr MUST_NOT_CLAUSE))"
            by (simp add: eq is_clause_marker_def)
          have p: "P c (obj ! pos)"
            using "4.IH"(2) [OF len m] eq by simp
          have "Q c' (Suc pos) (obj[pos := item'])"
            if "injectQueryContextVars env c (obj ! pos) isQuery = Inr (c', item')" for c' item'
            using "4.IH"(3) [OF len m, of "(c', item')" c' item'] that eq by simp
          with len False p show ?thesis by (auto intro: item)
        qed
      qed
    qed
  next
    case (5 env' c q i obj)
    show ?case
    proof (intro impI, elim conjE)
      assume eq: "env' = env" "q = isQuery"
      show "R c i obj"
      proof (cases "i < length obj")
        case False
        then show ?thesis by (rule props_end)
      next
        case len: True
        obtain key subObj where ent: "obj ! i = (key, subObj)"
          by (cases "obj ! i")
        have p: "P c subObj" if "entry_recurses key subObj"
          using "5.IH"(5) [OF len ent [symmetric]] that eq
          by (simp add: entry_recurses_def)
        have r: "R c' (Suc i) (obj[i := (key, v')])"
          if res: "resolve_entry env c isQuery key subObj = Inr (c', v')" for c' v'
        proof -
          have same: "obj[i := (key, subObj)] = obj"
            using ent [symmetric] by simp
          consider (falsy) "\<not> truthy subObj"
            | (auto_interval) "truthy subObj" "key = ''interval''"
                "truthy (get_prop subObj AUTOINTERVAL)"
            | (bound) "truthy subObj"
                "\<not> (key = ''interval'' \<and> truthy (get_prop subObj AUTOINTERVAL))"
                "get_prop subObj TIMEFILTER = JStr ''min'' \<or> get_prop subObj TIMEFILTER = JStr ''max''"
            | (range) "truthy subObj"
                "\<not> (key = ''interval'' \<and> truthy (get_prop subObj AUTOINTERVAL))"
                "\<not> (get_prop subObj TIMEFILTER = JStr ''min''
                     \<or> get_prop subObj TIMEFILTER = JStr ''max'')"
                "get_prop subObj TIMEFILTER = JBool True"
            | (recurse) "truthy subObj"
                "\<not> (key = ''interval'' \<and> truthy (get_prop subObj AUTOINTERVAL))"
                "\<not> (get_prop subObj TIMEFILTER = JStr ''min''
                     \<or> get_prop subObj TIMEFILTER = JStr ''max'')"
                "get_prop subObj TIMEFILTER \<noteq> JBool True"
                "get_prop subObj TIMEFILTER = Undefined"
            | (invalid) "truthy subObj"
                "\<not> (key = ''interval'' \<and> truthy (get_prop subObj AUTOINTERVAL))"
                "\<not> (get_prop subObj TIMEFILTER = JStr ''min''
                     \<or> get_prop subObj TIMEFILTER = JStr ''max'')"
                "get_prop subObj TIMEFILTER \<noteq> JBool True"
                "get_prop subObj TIMEFILTER \<noteq> Undefined"
            by blast
          then show ?thesis
          proof cases
            case falsy
            from res falsy have cv: "c' = c" "v' = subObj"
              by (simp_all add: resolve_entry_def)
            have "R c (Suc i) obj"
              using "5.IH"(1) [OF len ent [symmetric]] falsy eq by simp
            then show ?thesis
              unfolding cv same .
          next
            case auto_interval
            obtain n where n: "autointerval_size (get_prop subObj AUTOINTERVAL) = Inr n"
              using res auto_interval by (auto simp add: resolve_entry_def split: sum.splits)
            show ?thesis
              using "5.IH"(2) [OF len ent [symmetric], of n "Some (bounds_in_use env c)"
                      "bounds_in_use env c"] res eq auto_interval n
              by (simp add: resolve_entry_def getTimeRange_eq)
          next
            case bound
            obtain t where t: "getTimeBound env c (the_object subObj)
                (if get_prop subObj TIMEFILTER = JStr ''min'' then Min else Max) = Inr (c', t)"
              and v': "v' = JNum t"
              using res bound by (auto simp add: resolve_entry_def split: sum.splits)
            show ?thesis
              using "5.IH"(3) [OF len ent [symmetric], of "(c', t)" c' t] eq bound t v'
              by simp
          next
            case range
            obtain so' where so: "createRangeFilter env c (the_object subObj) = Inr (c', so')"
              and v': "v' = JObj so'"
              using res range by (auto simp add: resolve_entry_def split: sum.splits)
            show ?thesis
              using "5.IH"(4) [OF len ent [symmetric], of "(c', so')" c' so'] eq range so v'
              by simp
          next
            case recurse
            have "injectQueryContextVars env c subObj isQuery = Inr (c', v')"
              using res recurse by (simp add: resolve_entry_def)
            then show ?thesis
              using "5.IH"(6) [OF len ent [symmetric], of "(c', v')" c' v'] eq recurse
              by simp
          next
            case invalid
            then show ?thesis
              using res by (auto simp add: resolve_entry_def split: if_splits)
          qed
        qed
        from len ent p r show ?thesis by (rule entry)
      qed
    qed
  qed (auto intro: leaf)
  then show "P c v" and "Q c pos xs" and "R c i kvs"
    by blast+
qed

subsection \<open>The walker and the stored bounds\<close>








subsection \<open>The loop over the keys\<close>




subsection \<open>Automatic intervals\<close>






subsection \<open>Documents without markers\<close>

lemma marker_free_no_key:
  "marker_free_entries kvs \<Longrightarrow>
     obj_get kvs TIMEFILTER = Undefined \<and> obj_get kvs AUTOINTERVAL = Undefined"
  by (induction kvs) (auto simp add: obj_get_def)

lemma marker_free_get_prop:
  "marker_free v \<Longrightarrow> get_prop v TIMEFILTER = Undefined \<and> get_prop v AUTOINTERVAL = Undefined"
  by (cases v) (simp_all add: marker_free_no_key)

lemma marker_free_items_drop:
  "pos < length xs \<Longrightarrow>
     marker_free_items (drop pos xs) \<longleftrightarrow>
       \<not> is_clause_marker (xs ! pos) \<and> marker_free (xs ! pos)
       \<and> marker_free_items (drop (Suc pos) xs)"
  by (simp add: Cons_nth_drop_Suc [symmetric] is_clause_marker_def)

lemma marker_free_entries_drop:
  "i < length kvs \<Longrightarrow> kvs ! i = (key, subObj) \<Longrightarrow>
     marker_free_entries (drop i kvs) \<longleftrightarrow>
       key \<noteq> TIMEFILTER \<and> key \<noteq> AUTOINTERVAL \<and> marker_free subObj
       \<and> marker_free_entries (drop (Suc i) kvs)"
  by (simp add: Cons_nth_drop_Suc [symmetric])

lemma resolve_entry_marker_free:
  assumes "marker_free subObj"
      and "entry_recurses key subObj \<Longrightarrow> injectQueryContextVars env c subObj q = Inr (c, subObj)"
  shows "resolve_entry env c q key subObj = Inr (c, subObj)"
  using assms marker_free_get_prop [OF assms(1)]
  by (simp add: resolve_entry_def entry_recurses_def)

lemma walker_marker_free:
  "marker_free v \<longrightarrow> injectQueryContextVars env c v q = Inr (c, v)"
  "marker_free_items (drop pos xs) \<longrightarrow> inject_array env c q pos xs = Inr (c, xs)"
  "marker_free_entries (drop i kvs) \<longrightarrow> inject_props env c q i kvs = Inr (c, kvs)"
proof (induction c v and c pos xs and c i kvs rule: walker_induct [where env = env and isQuery = q])
  case (leaf c v)
  then show ?case by (cases v) simp_all
next
  case (array c xs)
  then show ?case by simp
next
  case (object c kvs)
  then show ?case by simp
next
  case (array_end c pos xs)
  then show ?case by (simp add: inject_array_end)
next
  case (clause c pos xs)
  then show ?case by (simp add: marker_free_items_drop)
next
  case (item c pos xs)
  show ?case
  proof
    assume "marker_free_items (drop pos xs)"
    then have here: "marker_free (xs ! pos)" and later: "marker_free_items (drop (Suc pos) xs)"
      using item(1) by (simp_all add: marker_free_items_drop)
    have sub: "injectQueryContextVars env c (xs ! pos) q = Inr (c, xs ! pos)"
      using item(3) here by simp
    have "inject_array env c q (Suc pos) (xs[pos := xs ! pos]) = Inr (c, xs[pos := xs ! pos])"
      using item(4) [OF sub] later by simp
    then show "inject_array env c q pos xs = Inr (c, xs)"
      by (simp add: inject_array_item [OF item(1,2)] sub)
  qed
next
  case (props_end c i kvs)
  then show ?case by (simp add: inject_props_end)
next
  case (entry c i kvs key subObj)
  show ?case
  proof
    assume "marker_free_entries (drop i kvs)"
    then have here: "marker_free subObj" and later: "marker_free_entries (drop (Suc i) kvs)"
      using entry(1,2) by (simp_all add: marker_free_entries_drop)
    have res: "resolve_entry env c q key subObj = Inr (c, subObj)"
      using here entry(3) by (intro resolve_entry_marker_free) simp_all
    have same: "kvs[i := (key, subObj)] = kvs"
      using entry(2) [symmetric] by simp
    have "inject_props env c q (Suc i) kvs = Inr (c, kvs)"
      using entry(4) [OF res] later by (simp add: same)
    then show "inject_props env c q i kvs = Inr (c, kvs)"
      by (simp add: inject_props_entry [OF entry(1,2)] res same)
  qed
qed

text \<open>
  C8, amended. The walker leaves a document without markers unchanged, at every depth,
  whatever \<open>isQuery\<close> is, without an error and without touching \<^verbatim>\<open>_timeBounds\<close>;
  consequently a second run over the result of a first run is a no-op whenever that
  result has no markers left.
\<close>

theorem marker_free_unchanged:
  "(marker_free doc \<longrightarrow> injectQueryContextVars env c doc isQuery = Inr (c, doc))
   \<and> (\<forall>c' doc'. injectQueryContextVars env c doc isQuery = Inr (c', doc') \<and> marker_free doc' \<longrightarrow>
         injectQueryContextVars env c' doc' isQuery = Inr (c', doc'))"
  using walker_marker_free(1) by blast

theorem marker_free_unchanged_witness:
  "marker_free doc_nested
   \<and> injectQueryContextVars env_term_filters None doc_nested True = Inr (None, doc_nested)
   \<and> injectQueryContextVars env_term_filters None
        (JObj [(''aggs'', JObj [(''interval'', JObj [(AUTOINTERVAL, JBool True)])])]) False
       = Inr (Some \<lparr>min_bound = 1000, max_bound = 9000\<rparr>,
              JObj [(''aggs'', JObj [(''interval'', JStr ''100ms'')])])
   \<and> marker_free (JObj [(''aggs'', JObj [(''interval'', JStr ''100ms'')])])
   \<and> injectQueryContextVars env_term_filters (Some \<lparr>min_bound = 1000, max_bound = 9000\<rparr>)
        (JObj [(''aggs'', JObj [(''interval'', JStr ''100ms'')])]) False
       = Inr (Some \<lparr>min_bound = 1000, max_bound = 9000\<rparr>,
              JObj [(''aggs'', JObj [(''interval'', JStr ''100ms'')])])"
proof -
  have free: "marker_free doc_nested"
    by (simp add: doc_nested_def MUST_CLAUSE_def MUST_NOT_CLAUSE_def TIMEFILTER_def
          AUTOINTERVAL_def)
  have first: "injectQueryContextVars env_term_filters None
        (JObj [(''aggs'', JObj [(''interval'', JObj [(AUTOINTERVAL, JBool True)])])]) False
       = Inr (Some \<lparr>min_bound = 1000, max_bound = 9000\<rparr>,
              JObj [(''aggs'', JObj [(''interval'', JStr ''100ms'')])])"
    by code_simp
  have free': "marker_free (JObj [(''aggs'', JObj [(''interval'', JStr ''100ms'')])])"
    by (simp add: TIMEFILTER_def AUTOINTERVAL_def)
  show ?thesis
    using marker_free_unchanged [of doc_nested env_term_filters None True]
      marker_free_unchanged
        [of "JObj [(''aggs'', JObj [(''interval'', JObj [(AUTOINTERVAL, JBool True)])])]"
            env_term_filters None False]
      free first free'
    by blast
qed

text \<open>
  The claim as stated, for the tree that a first run leaves: the walker does not walk the
  other keys of an object that it turns into a range filter, so a marker under such a key
  is still there after the first run, and a second run resolves it.
\<close>

theorem marker_free_unchanged_counterexample:
  "injectQueryContextVars env_1000_9000 None doc_sibling True =
     Inr (Some \<lparr>min_bound = 1000, max_bound = 9000\<rparr>, doc_sibling_once)
   \<and> injectQueryContextVars env_1000_9000 (Some \<lparr>min_bound = 1000, max_bound = 9000\<rparr>)
        doc_sibling_once True =
     Inr (Some \<lparr>min_bound = 1000, max_bound = 9000\<rparr>, doc_sibling_twice)
   \<and> doc_sibling_twice \<noteq> doc_sibling_once"
proof -
  have one: "injectQueryContextVars env_1000_9000 None doc_sibling True =
     Inr (Some \<lparr>min_bound = 1000, max_bound = 9000\<rparr>, doc_sibling_once)"
    by code_simp
  have two: "injectQueryContextVars env_1000_9000 (Some \<lparr>min_bound = 1000, max_bound = 9000\<rparr>)
        doc_sibling_once True =
     Inr (Some \<lparr>min_bound = 1000, max_bound = 9000\<rparr>, doc_sibling_twice)"
    by code_simp
  have "doc_sibling_twice \<noteq> doc_sibling_once"
    by (simp add: doc_sibling_once_def doc_sibling_twice_def)
  with one two show ?thesis by blast
qed


text \<open>
  Likewise for what the first run splices in: the cursor moves past the clauses of the
  dashboard context, so a placeholder in them is resolved by a second run only.
\<close>

lemma spliced_clause_example:
  "injectQueryContextVars env_placeholder_filter None (JArr [JStr MUST_CLAUSE]) True =
     Inr (None, JArr [JObj [(''range'', JObj [(''@timestamp'', JObj [(TIMEFILTER, JBool True)])])]])
   \<and> injectQueryContextVars env_placeholder_filter None
        (JArr [JObj [(''range'', JObj [(''@timestamp'', JObj [(TIMEFILTER, JBool True)])])]]) True =
     Inr (Some \<lparr>min_bound = 1000, max_bound = 9000\<rparr>,
          JArr [JObj [(''range'', JObj [(''@timestamp'',
             JObj [(''gte'', JNum 1000), (''lte'', JNum 9000),
                   (''format'', JStr ''epoch_millis'')])])]])"
proof -
  have one: "injectQueryContextVars env_placeholder_filter None (JArr [JStr MUST_CLAUSE]) True =
     Inr (None, JArr [JObj [(''range'', JObj [(''@timestamp'', JObj [(TIMEFILTER, JBool True)])])]])"
    by code_simp
  have two: "injectQueryContextVars env_placeholder_filter None
        (JArr [JObj [(''range'', JObj [(''@timestamp'', JObj [(TIMEFILTER, JBool True)])])]]) True =
     Inr (Some \<lparr>min_bound = 1000, max_bound = 9000\<rparr>,
          JArr [JObj [(''range'', JObj [(''@timestamp'',
             JObj [(''gte'', JNum 1000), (''lte'', JNum 9000),
                   (''format'', JStr ''epoch_millis'')])])]])"
    by code_simp
  from one two show ?thesis by (rule conjI)
qed

subsection \<open>The stored bounds across calls\<close>
















end
